theory Spec2Isabelle
  imports Complex_Main
begin

unbundle bit_operations_syntax

section \<open>Dragon Curve Explorer: the L-system string generator\<close>

text \<open>
  Numbers of the script are modelled as follows: iteration counts, colour channels and
  counters are \<open>int\<close>; coordinates, angles and zoom factors are \<open>real\<close> (exact
  arithmetic: the rounding of IEEE doubles is not part of the model). Strings are
  \<open>string\<close>; the script only ever builds ASCII strings.

  The script itself computes in doubles, and \<open>Math.cos\<close> and \<open>Math.sin\<close> are
  approximations that the engine chooses. What is proved below about coordinates and
  colour values therefore holds of the exact quantities; of the script's outputs it holds
  where rounding cannot change it (lengths, first points, comparisons against a bound,
  which branch is taken), and not where a last bit matters.
\<close>

type_synonym lSystemCache = "int \<rightharpoonup> string"

text \<open>The body of the inner loop of \<open>generateLSystem\<close>: what one character appends to \<open>next\<close>.\<close>

definition rewriteChar :: "char \<Rightarrow> string" where
  "rewriteChar ch =
     (if ch = CHR ''F'' then ''F+G''
      else if ch = CHR ''G'' then ''F-G''
      else [ch])"

text \<open>The inner loop \<open>for (const ch of str)\<close>, started with \<open>next = ''\<close>.\<close>

definition rewritePass :: "string \<Rightarrow> string" where
  "rewritePass str = foldl (\<lambda>next ch. next @ rewriteChar ch) [] str"

text \<open>The outer loop \<open>for (let i = 0; i < n; i++)\<close>, with the loop variables as arguments.\<close>

function rewriteLoop :: "int \<Rightarrow> int \<Rightarrow> string \<Rightarrow> string" where
  "rewriteLoop i n str = (if i < n then rewriteLoop (i + 1) n (rewritePass str) else str)"
  by pat_completeness auto
termination
  by (relation "measure (\<lambda>(i, n, str). nat (n - i))") auto

declare rewriteLoop.simps [simp del]

text \<open>
  \<open>generateLSystem\<close> with the cache object passed in and returned. A cached entry is
  used when it is truthy, that is present and not the empty string.
\<close>

definition generateLSystem :: "lSystemCache \<Rightarrow> int \<Rightarrow> string \<times> lSystemCache" where
  "generateLSystem cache n =
     (case cache n of
        Some s \<Rightarrow>
          if s \<noteq> [] then (s, cache)
          else (let str = rewriteLoop 0 n ''F'' in (str, cache(n \<mapsto> str)))
      | None \<Rightarrow> (let str = rewriteLoop 0 n ''F'' in (str, cache(n \<mapsto> str))))"

text \<open>
  The caches the page can hold: the empty object it starts with, and whatever a call of
  \<open>generateLSystem\<close> leaves behind.
\<close>

inductive reachableCache :: "lSystemCache \<Rightarrow> bool" where
  initial: "reachableCache Map.empty"
| call: "reachableCache cache \<Longrightarrow> reachableCache (snd (generateLSystem cache n))"


text \<open>The forward-draw symbols of a string, and how many of them it holds.\<close>

definition isDraw :: "char \<Rightarrow> bool" where
  "isDraw ch = (ch = CHR ''F'' \<or> ch = CHR ''G'')"

definition drawCount :: "string \<Rightarrow> nat" where
  "drawCount str = length (filter isDraw str)"

section \<open>The 2D and 3D projectors\<close>

type_synonym point2 = "real \<times> real"
type_synonym point3 = "real \<times> real \<times> real"

text \<open>A 3x3 array of numbers, as its three rows.\<close>

type_synonym mat3 = "point3 \<times> point3 \<times> point3"

text \<open>
  One round of the loop of \<open>get2DPoints\<close> on the variables \<open>x\<close>, \<open>y\<close>,
  \<open>direction\<close> and \<open>points\<close>; \<open>points.push\<close> appends at the end. The heading
  is summed and its cosine and sine are taken exactly, where the script rounds each sum
  and each call.
\<close>

fun step2D :: "real \<Rightarrow> real \<times> real \<times> real \<times> point2 list \<Rightarrow> char
    \<Rightarrow> real \<times> real \<times> real \<times> point2 list" where
  "step2D angleRad (x, y, direction, points) ch =
     (if ch = CHR ''F'' \<or> ch = CHR ''G'' then
        (let x' = x + cos direction; y' = y + sin direction
         in (x', y', direction, points @ [(x', y')]))
      else if ch = CHR ''+'' then (x, y, direction + angleRad, points)
      else if ch = CHR ''-'' then (x, y, direction - angleRad, points)
      else (x, y, direction, points))"

definition get2DPoints :: "string \<Rightarrow> real \<Rightarrow> point2 list" where
  "get2DPoints str angleDeg =
     (let angleRad = (angleDeg * pi) / 180
      in case foldl (step2D angleRad) (0, 0, 0, [(0, 0)]) str of
           (x, y, direction, points) \<Rightarrow> points)"

definition getRotationZ :: "real \<Rightarrow> mat3" where
  "getRotationZ angle =
     (let c = cos angle; s = sin angle
      in ((c, - s, 0),
          (s, c, 0),
          (0, 0, 1)))"

definition getRotationX :: "real \<Rightarrow> mat3" where
  "getRotationX angle =
     (let c = cos angle; s = sin angle
      in ((1, 0, 0),
          (0, c, - s),
          (0, s, c)))"

text \<open>
  \<open>matMul\<close>: the three nested loops written out, each entry the sum, started at 0,
  of \<open>A[i][k] * B[k][j]\<close> for \<open>k = 0, 1, 2\<close>.
\<close>

fun matMul :: "mat3 \<Rightarrow> mat3 \<Rightarrow> mat3" where
  "matMul ((a00, a01, a02), (a10, a11, a12), (a20, a21, a22))
          ((b00, b01, b02), (b10, b11, b12), (b20, b21, b22)) =
     ((0 + a00 * b00 + a01 * b10 + a02 * b20,
       0 + a00 * b01 + a01 * b11 + a02 * b21,
       0 + a00 * b02 + a01 * b12 + a02 * b22),
      (0 + a10 * b00 + a11 * b10 + a12 * b20,
       0 + a10 * b01 + a11 * b11 + a12 * b21,
       0 + a10 * b02 + a11 * b12 + a12 * b22),
      (0 + a20 * b00 + a21 * b10 + a22 * b20,
       0 + a20 * b01 + a21 * b11 + a22 * b21,
       0 + a20 * b02 + a21 * b12 + a22 * b22))"

fun applyMat :: "mat3 \<Rightarrow> point3 \<Rightarrow> point3" where
  "applyMat ((m00, m01, m02), (m10, m11, m12), (m20, m21, m22)) (v0, v1, v2) =
     (m00 * v0 + m01 * v1 + m02 * v2,
      m10 * v0 + m11 * v1 + m12 * v2,
      m20 * v0 + m21 * v1 + m22 * v2)"

text \<open>
  One round of the loop of \<open>get3DPoints\<close> on \<open>orientation\<close>, \<open>x\<close>, \<open>y\<close>, \<open>z\<close>
  and \<open>points\<close>. The orientation is a product of exact matrices here; in the script
  every product and sum of \<open>matMul\<close> is rounded, so that after two turns it holds
  the rounded \<open>c * c - s * s\<close> where the 2D turtle takes the cosine of the doubled angle.
\<close>

fun step3D :: "mat3 \<Rightarrow> mat3 \<Rightarrow> real \<Rightarrow> mat3 \<times> real \<times> real \<times> real \<times> point3 list \<Rightarrow> char
    \<Rightarrow> mat3 \<times> real \<times> real \<times> real \<times> point3 list" where
  "step3D plusRot minusRot extrude (orientation, x, y, z, points) ch =
     (if ch = CHR ''F'' \<or> ch = CHR ''G'' then
        (case applyMat orientation (1, 0, 0) of
           (dir0, dir1, dir2) \<Rightarrow>
             (let x' = x + dir0; y' = y + dir1; z' = z + dir2; z'' = z' + extrude
              in (orientation, x', y', z'', points @ [(x', y', z'')])))
      else if ch = CHR ''+'' then (matMul orientation plusRot, x, y, z, points)
      else if ch = CHR ''-'' then (matMul orientation minusRot, x, y, z, points)
      else (orientation, x, y, z, points))"

definition get3DPoints :: "string \<Rightarrow> real \<Rightarrow> real \<Rightarrow> real \<Rightarrow> point3 list" where
  "get3DPoints str angleDeg twistDeg extrude =
     (let angleRad = (angleDeg * pi) / 180;
          twistRad = (twistDeg * pi) / 180;
          plusRot = matMul (getRotationZ angleRad) (getRotationX twistRad);
          minusRot = matMul (getRotationZ (- angleRad)) (getRotationX twistRad)
      in case foldl (step3D plusRot minusRot extrude)
                (((1, 0, 0), (0, 1, 0), (0, 0, 1)), 0, 0, 0, [(0, 0, 0)]) str of
           (orientation, x, y, z, points) \<Rightarrow> points)"

text \<open>Dropping the third coordinate of a 3D point.\<close>

fun flatten :: "point3 \<Rightarrow> point2" where
  "flatten (x, y, z) = (x, y)"

section \<open>Colour utilities\<close>

type_synonym rgb = "int \<times> int \<times> int"

text \<open>
  \<open>parseInt(h, 16)\<close> on an ASCII string: leading white space is skipped, then an
  optional sign and an optional \<open>0x\<close> or \<open>0X\<close>, then the longest run of hexadecimal
  digits is read; with no digit the result is \<open>NaN\<close>, here \<open>None\<close>. The value is
  kept exact (a double is exact up to \<open>2 ^ 53\<close>).
\<close>

definition isWhiteSpace :: "char \<Rightarrow> bool" where
  "isWhiteSpace ch = (of_char ch \<in> {9, 10, 11, 12, 13, 32 :: nat})"

definition hexVal :: "char \<Rightarrow> int option" where
  "hexVal ch =
     (let c = of_char ch :: nat
      in if 48 \<le> c \<and> c \<le> 57 then Some (int c - 48)
         else if 97 \<le> c \<and> c \<le> 102 then Some (int c - 87)
         else if 65 \<le> c \<and> c \<le> 70 then Some (int c - 55)
         else None)"

fun radixDigits :: "string \<Rightarrow> int list" where
  "radixDigits [] = []"
| "radixDigits (ch # rest) =
     (case hexVal ch of None \<Rightarrow> [] | Some d \<Rightarrow> d # radixDigits rest)"

definition parseInt16 :: "string \<Rightarrow> int option" where
  "parseInt16 inputString =
     (let S = dropWhile isWhiteSpace inputString;
          sign = (if take 1 S = ''-'' then - 1 else 1 :: int);
          S1 = (if take 1 S = ''+'' \<or> take 1 S = ''-'' then drop 1 S else S);
          S2 = (if take 2 S1 = ''0x'' \<or> take 2 S1 = ''0X'' then drop 2 S1 else S1);
          Z = radixDigits S2
      in if Z = [] then None else Some (sign * foldl (\<lambda>m d. m * 16 + d) 0 Z))"

text \<open>
  The operand conversion of \<open>>>\<close> and \<open>&\<close>: \<open>NaN\<close> becomes 0, any other integer is
  wrapped into 32 bits, two's complement.
\<close>

definition toInt32 :: "int option \<Rightarrow> int" where
  "toInt32 v = (case v of None \<Rightarrow> 0 | Some k \<Rightarrow> signed_take_bit 31 k)"

text \<open>\<open>hex.replace('#', '')\<close> removes the first \<open>#\<close> only.\<close>

definition hexToRgb :: "string \<Rightarrow> rgb" where
  "hexToRgb hex =
     (let h = remove1 (CHR ''#'') hex;
          bigint = toInt32 (parseInt16 h);
          r = (drop_bit 16 bigint) AND 255;
          g = (drop_bit 8 bigint) AND 255;
          b = bigint AND 255
      in (r, g, b))"

text \<open>\<open>c.toString(16)\<close> for an integer \<open>c\<close>: lower-case digits, a minus sign when negative.\<close>

definition hexChar :: "nat \<Rightarrow> char" where
  "hexChar d = ''0123456789abcdef'' ! d"

fun hexDigits :: "nat \<Rightarrow> string" where
  "hexDigits n = (if n < 16 then [hexChar n] else hexDigits (n div 16) @ [hexChar (n mod 16)])"

declare hexDigits.simps [simp del]

definition toString16 :: "int \<Rightarrow> string" where
  "toString16 c = (if c < 0 then CHR ''-'' # hexDigits (nat (- c)) else hexDigits (nat c))"

definition toHex :: "int \<Rightarrow> string" where
  "toHex c = (let hex = toString16 c in if length hex = 1 then CHR ''0'' # hex else hex)"

definition rgbToHex :: "int \<Rightarrow> int \<Rightarrow> int \<Rightarrow> string" where
  "rgbToHex r g b = CHR ''#'' # toHex r @ toHex g @ toHex b"

text \<open>\<open>Math.round\<close>: the nearest integer, halves upwards.\<close>

definition Math_round :: "real \<Rightarrow> int" where
  "Math_round v = \<lfloor>v + 1 / 2\<rfloor>"

text \<open>The remainder operator \<open>%\<close> on numbers: the quotient is truncated towards zero.\<close>

definition jsRemainder :: "real \<Rightarrow> real \<Rightarrow> real" where
  "jsRemainder a b =
     a - b * of_int (if 0 \<le> a / b then \<lfloor>a / b\<rfloor> else \<lceil>a / b\<rceil>)"

definition hue2rgb :: "real \<Rightarrow> real \<Rightarrow> real \<Rightarrow> real" where
  "hue2rgb p q t0 =
     (let t1 = (if t0 < 0 then t0 + 1 else t0);
          t = (if t1 > 1 then t1 - 1 else t1)
      in if t < 1 / 6 then p + (q - p) * 6 * t
         else if t < 1 / 2 then q
         else if t < 2 / 3 then p + (q - p) * (2 / 3 - t) * 6
         else p)"

text \<open>
  \<open>hslToRgb\<close>, in exact arithmetic. A channel that falls on a half here (hue 270 gives
  red 127.5, rounded to 128) can fall just below it in the script's doubles and round
  the other way.
\<close>

definition hslToRgb :: "real \<Rightarrow> real \<Rightarrow> real \<Rightarrow> rgb" where
  "hslToRgb h0 s l =
     (let h = jsRemainder h0 360 / 360
      in if s = 0 then (Math_round (l * 255), Math_round (l * 255), Math_round (l * 255))
         else
           (let q = (if l < 0.5 then l * (1 + s) else l + s - l * s);
                p = 2 * l - q;
                r = hue2rgb p q (h + 1 / 3);
                g = hue2rgb p q h;
                b = hue2rgb p q (h - 1 / 3)
            in (Math_round (r * 255), Math_round (g * 255), Math_round (b * 255))))"

section \<open>The page: elements, script variables, viewer\<close>

text \<open>
  The controls that the animation disables, one constructor for each element of
  \<open>controlsToDisable\<close>.
\<close>

datatype control =
  IterationInput | IterationNumber | AngleInput | AngleNumber | TwistInput | TwistNumber
  | ExtrudeInput | ExtrudeNumber | SpeedInput | SpeedNumber | Enable3dInput | DarkModeInput
  | ColorStartInput | ColorEndInput | GradientInput | RainbowInput

definition controlsToDisable :: "control list" where
  "controlsToDisable =
     [IterationInput, IterationNumber, AngleInput, AngleNumber, TwistInput, TwistNumber,
      ExtrudeInput, ExtrudeNumber, SpeedInput, SpeedNumber, Enable3dInput, DarkModeInput,
      ColorStartInput, ColorEndInput, GradientInput, RainbowInput]"

text \<open>One stroked line of the canvas: \<open>strokeStyle\<close> (the three numbers of its \<open>rgb(...)\<close>
  string), \<open>lineWidth\<close>, and the arguments of \<open>moveTo\<close> and \<open>lineTo\<close>.\<close>

record stroke =
  strokeStyle :: rgb
  lineWidth :: real
  moveTo :: point2
  lineTo :: point2

text \<open>
  What the script reads from and writes to the document. A slider or number input is
  held as the number that \<open>parseInt\<close> or \<open>parseFloat\<close> reads from its value, a checkbox
  as its \<open>checked\<close> flag. \<open>canvasStrokes\<close> is what the canvas shows; \<open>timeouts\<close> are the
  pending \<open>setTimeout\<close> calls, each with its identifier and delay. The text read-outs and
  the mirrored number inputs are left out.
\<close>

record elements =
  iterationInput :: int
  angleInput :: real
  twistInput :: real
  extrudeInput :: real
  speedInput :: int
  colorStartInput :: string
  colorEndInput :: string
  gradientInput :: bool
  rainbowInput :: bool
  enable3dInput :: bool
  clientWidth :: real
  clientHeight :: real
  disabled :: "control \<Rightarrow> bool"
  animateBtnDisplay :: string
  cancelBtnDisplay :: string
  canvasStrokes :: "stroke list"
  timeouts :: "(nat \<times> real) list"
  nextTimeout :: nat

text \<open>The 3D viewer state.\<close>

record viewer =
  viewCenter :: point3
  boundingRadius :: real
  rotX :: real
  rotY :: real
  userZoom :: real
  baseZoom :: real
  cameraDist :: real

text \<open>The variables of the script, with the viewer and the document.\<close>

record state =
  currentString :: string
  currentPoints2D :: "point2 list"
  currentPoints3D :: "point3 list"
  animationProgress :: int
  isAnimating :: bool
  animationTimer :: "nat option"
  animationSpeed :: int
  startColor :: string
  endColor :: string
  useGradient :: bool
  useRainbow :: bool
  lSystemCache :: lSystemCache
  view :: viewer
  page :: elements

section \<open>Camera and projection\<close>

definition getViewRotation :: "viewer \<Rightarrow> mat3" where
  "getViewRotation v =
     (let cx = cos (rotX v); sx = sin (rotX v); cy = cos (rotY v); sy = sin (rotY v)
      in ((cy, 0, sy),
          (sx * sy, cx, - sx * cy),
          (- cx * sy, sx, cx * cy)))"

text \<open>The object \<open>{x, y, z, valid}\<close> that \<open>project3D\<close> returns.\<close>

record projection =
  screenX :: real
  screenY :: real
  depthZ :: real
  valid :: bool

text \<open>
  \<open>project3D\<close>. Where \<open>denom\<close> is 0 the script's \<open>factor\<close> is infinite or \<open>NaN\<close>,
  while the quotient below is 0; such a point is not \<open>valid\<close> and its screen position is
  never used.
\<close>

definition project3D :: "state \<Rightarrow> point3 \<Rightarrow> projection" where
  "project3D s pt =
     (case pt of (pt0, pt1, pt2) \<Rightarrow>
      case viewCenter (view s) of (cx, cy, cz) \<Rightarrow>
      case getViewRotation (view s) of ((R00, R01, R02), (R10, R11, R12), (R20, R21, R22)) \<Rightarrow>
        (let dx = pt0 - cx;
             dy = pt1 - cy;
             dz = pt2 - cz;
             rx = R00 * dx + R01 * dy + R02 * dz;
             ry = R10 * dx + R11 * dy + R12 * dz;
             rz = R20 * dx + R21 * dy + R22 * dz;
             denom = cameraDist (view s) - rz;
             valid = (denom > 0.001);
             factor = (baseZoom (view s) * userZoom (view s)) / denom;
             x2d = clientWidth (page s) / 2 + rx * factor;
             y2d = clientHeight (page s) / 2 - ry * factor
         in \<lparr>screenX = x2d, screenY = y2d, depthZ = rz, valid = valid\<rparr>))"

section \<open>The renderer\<close>

text \<open>
  The colour of segment \<open>i\<close>: the chain of conditions that both branches of \<open>draw\<close>
  carry, word for word, on the script's \<open>useRainbow\<close> and \<open>useGradient\<close> and on the
  start and end colours that \<open>hexToRgb\<close> gave before the loop.
\<close>

definition segmentColor :: "bool \<Rightarrow> bool \<Rightarrow> rgb \<Rightarrow> rgb \<Rightarrow> int \<Rightarrow> nat \<Rightarrow> rgb" where
  "segmentColor rainbow gradient startRGB endRGB totalSegments i =
     (case startRGB of (startR, startG, startB) \<Rightarrow>
      case endRGB of (endR, endG, endB) \<Rightarrow>
        (let diffR = endR - startR; diffG = endG - startG; diffB = endB - startB
         in if rainbow \<and> totalSegments > 0 then
              (let t = real i / real_of_int totalSegments; h = 360 * t
               in hslToRgb h 1 0.5)
            else if gradient \<and> totalSegments > 0 then
              (let t = real i / real_of_int totalSegments
               in (Math_round (real_of_int startR + real_of_int diffR * t),
                   Math_round (real_of_int startG + real_of_int diffG * t),
                   Math_round (real_of_int startB + real_of_int diffB * t)))
            else (startR, startG, startB)))"

definition strokeColor :: "state \<Rightarrow> int \<Rightarrow> nat \<Rightarrow> rgb" where
  "strokeColor s totalSegments i =
     segmentColor (useRainbow s) (useGradient s) (hexToRgb (startColor s)) (hexToRgb (endColor s))
       totalSegments i"

text \<open>\<open>maxSegment\<close>, the number of segments a call of \<open>draw\<close> goes through.\<close>

definition maxSegment :: "state \<Rightarrow> int \<Rightarrow> int" where
  "maxSegment s totalSegments =
     (if animationProgress s \<ge> 0 then min (animationProgress s) totalSegments
      else totalSegments)"

text \<open>
  The bounds loop of the 2D branch. It starts from plus and minus infinity, so its first
  round sets all four bounds from the first point; \<open>bounds2D\<close> is the loop from there on.
\<close>

fun boundsStep2D :: "real \<times> real \<times> real \<times> real \<Rightarrow> point2 \<Rightarrow> real \<times> real \<times> real \<times> real" where
  "boundsStep2D (minX, minY, maxX, maxY) (x, y) =
     (if x < minX then x else minX,
      if y < minY then y else minY,
      if x > maxX then x else maxX,
      if y > maxY then y else maxY)"

fun bounds2D :: "point2 \<Rightarrow> point2 list \<Rightarrow> real \<times> real \<times> real \<times> real" where
  "bounds2D (x, y) rest = foldl boundsStep2D (x, y, x, y) rest"

text \<open>The body of the 2D loop for segment \<open>i\<close>, given the scaling computed before it.\<close>

definition segment2D :: "state \<Rightarrow> real \<Rightarrow> real \<Rightarrow> real \<Rightarrow> real \<Rightarrow> real \<Rightarrow> int \<Rightarrow> nat \<Rightarrow> stroke" where
  "segment2D s offsetX offsetY adjMinX adjMinY scale totalSegments i =
     (case currentPoints2D s ! i of (x1, y1) \<Rightarrow>
      case currentPoints2D s ! (i + 1) of (x2, y2) \<Rightarrow>
        (let px1 = offsetX + (x1 - adjMinX) * scale;
             py1 = offsetY + (y1 - adjMinY) * scale;
             px2 = offsetX + (x2 - adjMinX) * scale;
             py2 = offsetY + (y2 - adjMinY) * scale
         in \<lparr>strokeStyle = strokeColor s totalSegments i, lineWidth = 1,
              moveTo = (px1, py1), lineTo = (px2, py2)\<rparr>))"

text \<open>
  The 2D branch of \<open>draw\<close>. The loop index stays below \<open>totalSegments\<close>, so both
  points of every segment exist.
\<close>

definition draw2D :: "state \<Rightarrow> stroke list" where
  "draw2D s =
     (case currentPoints2D s of
        [] \<Rightarrow> []
      | [p] \<Rightarrow> []
      | p # rest \<Rightarrow>
          (case bounds2D p rest of (minX, minY, maxX, maxY) \<Rightarrow>
            (let wBound = (if maxX - minX = 0 then 1 else maxX - minX);
                 hBound = (if maxY - minY = 0 then 1 else maxY - minY);
                 expandX = wBound * 0.05;
                 expandY = hBound * 0.05;
                 adjMinX = minX - expandX;
                 adjMaxX = maxX + expandX;
                 adjMinY = minY - expandY;
                 adjMaxY = maxY + expandY;
                 adjW = adjMaxX - adjMinX;
                 adjH = adjMaxY - adjMinY;
                 margin = 20;
                 availW = clientWidth (page s) - 2 * margin;
                 availH = clientHeight (page s) - 2 * margin;
                 scale = min (availW / adjW) (availH / adjH);
                 offsetX = margin + (availW - adjW * scale) / 2;
                 offsetY = margin + (availH - adjH * scale) / 2;
                 totalSegments = int (length (currentPoints2D s)) - 1
             in map (segment2D s offsetX offsetY adjMinX adjMinY scale totalSegments)
                  [0 ..< nat (maxSegment s totalSegments)])))"

text \<open>
  The body of the 3D loop for segment \<open>i\<close>: nothing when it takes \<open>continue\<close>, one
  stroke otherwise.
\<close>

definition segment3D :: "state \<Rightarrow> int \<Rightarrow> nat \<Rightarrow> stroke list" where
  "segment3D s totalSegments i =
     (let p1 = project3D s (currentPoints3D s ! i);
          p2 = project3D s (currentPoints3D s ! (i + 1))
      in if \<not> valid p1 \<or> \<not> valid p2 then []
         else
           (let depth = (depthZ p1 + depthZ p2) / 2;
                weight = max 0.3 (1 - depth / (2 * boundingRadius (view s)))
            in [\<lparr>strokeStyle = strokeColor s totalSegments i, lineWidth = weight,
                  moveTo = (screenX p1, screenY p1), lineTo = (screenX p2, screenY p2)\<rparr>]))"

definition draw3D :: "state \<Rightarrow> stroke list" where
  "draw3D s =
     (if length (currentPoints3D s) < 2 then []
      else
        (let totalSegments = int (length (currentPoints3D s)) - 1
         in concat (map (segment3D s totalSegments) [0 ..< nat (maxSegment s totalSegments)])))"

text \<open>\<open>draw\<close> clears the canvas and strokes the segments: the canvas then shows these.\<close>

definition draw :: "state \<Rightarrow> state" where
  "draw s =
     s\<lparr>page := (page s)\<lparr>canvasStrokes :=
          (if \<not> enable3dInput (page s) then draw2D s else draw3D s)\<rparr>\<rparr>"

section \<open>Bounds of the 3D curve, parameter changes\<close>

fun boundsStep3D :: "real \<times> real \<times> real \<times> real \<times> real \<times> real \<Rightarrow> point3
    \<Rightarrow> real \<times> real \<times> real \<times> real \<times> real \<times> real" where
  "boundsStep3D (minX, minY, minZ, maxX, maxY, maxZ) (x, y, z) =
     (if x < minX then x else minX,
      if y < minY then y else minY,
      if z < minZ then z else minZ,
      if x > maxX then x else maxX,
      if y > maxY then y else maxY,
      if z > maxZ then z else maxZ)"

text \<open>As in 2D, the first round of the loop replaces the infinities by the first point.\<close>

fun bounds3D :: "point3 \<Rightarrow> point3 list \<Rightarrow> real \<times> real \<times> real \<times> real \<times> real \<times> real" where
  "bounds3D (x, y, z) rest = foldl boundsStep3D (x, y, z, x, y, z) rest"

text \<open>
  \<open>compute3DBounds({ preserveView })\<close>. With all points equal the script divides zero by
  zero for \<open>baseZoom\<close>; the curves of the generator never are, their first segment has
  length at least 1.
\<close>

definition compute3DBounds :: "bool \<Rightarrow> state \<Rightarrow> state" where
  "compute3DBounds preserveView s =
     (case currentPoints3D s of
        [] \<Rightarrow> s\<lparr>view := (view s)\<lparr>viewCenter := (0, 0, 0), boundingRadius := 1\<rparr>\<rparr>
      | p # rest \<Rightarrow>
          (case bounds3D p rest of (minX, minY, minZ, maxX, maxY, maxZ) \<Rightarrow>
            (let dx = maxX - minX;
                 dy = maxY - minY;
                 dz = maxZ - minZ;
                 radius = sqrt (dx * dx + dy * dy + dz * dz) / 2;
                 shorterSide = min (clientWidth (page s)) (clientHeight (page s));
                 fillFrac = 0.9;
                 dist = 3 * radius;
                 zoom = dist * (fillFrac * shorterSide) / (2 * radius);
                 v = (view s)\<lparr>viewCenter := ((minX + maxX) / 2, (minY + maxY) / 2, (minZ + maxZ) / 2),
                       boundingRadius := radius, cameraDist := dist, baseZoom := zoom\<rparr>
             in s\<lparr>view := (if \<not> preserveView then v\<lparr>userZoom := 1, rotX := 0, rotY := 0\<rparr> else v)\<rparr>)))"

definition updateFractal :: "state \<Rightarrow> state" where
  "updateFractal s =
     (let iterations = iterationInput (page s);
          angleDeg = angleInput (page s);
          twistDeg = twistInput (page s);
          extrude = extrudeInput (page s);
          spd = speedInput (page s)
      in case generateLSystem (lSystemCache s) iterations of (str, cache') \<Rightarrow>
           (let s1 = s\<lparr>animationSpeed := spd,
                       startColor := colorStartInput (page s),
                       endColor := colorEndInput (page s),
                       useGradient := gradientInput (page s),
                       useRainbow := rainbowInput (page s),
                       lSystemCache := cache',
                       currentString := str,
                       currentPoints2D := get2DPoints str angleDeg,
                       currentPoints3D := get3DPoints str angleDeg twistDeg extrude\<rparr>;
                s2 = (if enable3dInput (page s1) then compute3DBounds True s1 else s1)
            in if \<not> isAnimating s2 then draw s2 else s2))"

section \<open>Zoom and animation\<close>

text \<open>The wheel listener of the canvas, for an event with the given \<open>deltaY\<close>.\<close>

definition canvasWheel :: "real \<Rightarrow> state \<Rightarrow> state" where
  "canvasWheel deltaY s =
     (if \<not> enable3dInput (page s) then s
      else
        (let delta = deltaY;
             factor = exp (- delta * 0.001);
             zoom = userZoom (view s) * factor;
             clamped = max 0.1 (min 10 zoom)
         in draw (s\<lparr>view := (view s)\<lparr>userZoom := clamped\<rparr>\<rparr>)))"

definition setDisabled :: "bool \<Rightarrow> (control \<Rightarrow> bool) \<Rightarrow> control \<Rightarrow> bool" where
  "setDisabled v d = foldl (\<lambda>d' ctrl. d'(ctrl := v)) d controlsToDisable"

text \<open>
  \<open>animateSegment\<close>, the function that the click handler defines, calls once and hands
  to \<open>setTimeout\<close>; \<open>use3D\<close> is the value the handler captured.
\<close>

definition animateSegment :: "bool \<Rightarrow> state \<Rightarrow> state" where
  "animateSegment use3D s =
     (if \<not> isAnimating s then s
      else
        (let s1 = draw s;
             s2 = s1\<lparr>animationProgress := animationProgress s1 + 1\<rparr>;
             totalSegments =
               (if use3D then int (length (currentPoints3D s2))
                else int (length (currentPoints2D s2))) - 1
         in if animationProgress s2 \<le> totalSegments then
              (let interval = 1000 / real_of_int (animationSpeed s2);
                   timer = nextTimeout (page s2)
               in s2\<lparr>animationTimer := Some timer,
                     page := (page s2)\<lparr>timeouts := timeouts (page s2) @ [(timer, interval)],
                                       nextTimeout := timer + 1\<rparr>\<rparr>)
            else
              updateFractal
                (s2\<lparr>isAnimating := False,
                    animationProgress := - 1,
                    page := (page s2)\<lparr>animateBtnDisplay := ''inline-block'',
                                      cancelBtnDisplay := ''none'',
                                      disabled := setDisabled False (disabled (page s2))\<rparr>\<rparr>)))"

text \<open>The click listener of the animate button.\<close>

definition animateBtnClick :: "state \<Rightarrow> state" where
  "animateBtnClick s =
     (if isAnimating s then s
      else
        (let targetIterations = iterationInput (page s);
             angleDeg = angleInput (page s);
             twistDeg = twistInput (page s);
             extrude = extrudeInput (page s);
             use3D = enable3dInput (page s)
         in case generateLSystem (lSystemCache s) targetIterations of (finalString, cache') \<Rightarrow>
              (let s1 = s\<lparr>lSystemCache := cache',
                          currentPoints2D := get2DPoints finalString angleDeg,
                          currentPoints3D := get3DPoints finalString angleDeg twistDeg extrude\<rparr>;
                   s2 = (if use3D then compute3DBounds False s1 else s1);
                   s3 = s2\<lparr>isAnimating := True,
                           animationProgress := 0,
                           page := (page s2)\<lparr>animateBtnDisplay := ''none'',
                                             cancelBtnDisplay := ''inline-block'',
                                             disabled := setDisabled True (disabled (page s2))\<rparr>\<rparr>
               in animateSegment use3D s3)))"

text \<open>
  The values the script gives its variables before any event, on a given document.
\<close>

definition initialState :: "elements \<Rightarrow> state" where
  "initialState els =
     \<lparr>currentString = [], currentPoints2D = [], currentPoints3D = [],
      animationProgress = - 1, isAnimating = False, animationTimer = None,
      animationSpeed = 60, startColor = ''#3366cc'', endColor = ''#3366cc'',
      useGradient = False, useRainbow = False, lSystemCache = Map.empty,
      view = \<lparr>viewCenter = (0, 0, 0), boundingRadius = 1, rotX = 0, rotY = 0,
               userZoom = 1, baseZoom = 1, cameraDist = 1\<rparr>,
      page = els\<rparr>"

text \<open>A document to evaluate on: a 640 by 480 canvas, sliders at rest, nothing disabled.\<close>

definition samplePage :: elements where
  "samplePage =
     \<lparr>iterationInput = 1, angleInput = 0, twistInput = 0, extrudeInput = 0, speedInput = 60,
      colorStartInput = ''#000000'', colorEndInput = ''#ffffff'',
      gradientInput = True, rainbowInput = True, enable3dInput = True,
      clientWidth = 640, clientHeight = 480, disabled = (\<lambda>ctrl. False),
      animateBtnDisplay = ''inline-block'', cancelBtnDisplay = ''none'',
      canvasStrokes = [], timeouts = [], nextTimeout = 0\<rparr>"

section \<open>Properties of the string generator\<close>

lemma foldl_append_concat:
  "foldl (\<lambda>next ch. next @ f ch) acc str = acc @ concat (map f str)"
  by (induction str arbitrary: acc) simp_all

lemma rewritePass_concat: "rewritePass str = concat (map rewriteChar str)"
  by (simp add: rewritePass_def foldl_append_concat)

lemma rewritePass_Nil: "rewritePass [] = []"
  by (simp add: rewritePass_concat)

lemma rewritePass_Cons: "rewritePass (ch # str) = rewriteChar ch @ rewritePass str"
  by (simp add: rewritePass_concat)

lemma length_rewritePass: "length (rewritePass str) = length str + 2 * drawCount str"
  by (induction str) (simp_all add: rewritePass_Nil rewritePass_Cons rewriteChar_def drawCount_def isDraw_def)

lemma drawCount_rewritePass: "drawCount (rewritePass str) = 2 * drawCount str"
  by (induction str) (simp_all add: rewritePass_Nil rewritePass_Cons rewriteChar_def drawCount_def isDraw_def)

lemma rewriteLoop_done: "\<not> i < n \<Longrightarrow> rewriteLoop i n str = str"
  by (simp add: rewriteLoop.simps)

lemma rewriteLoop_step: "i < n \<Longrightarrow> rewriteLoop i n str = rewriteLoop (i + 1) n (rewritePass str)"
  by (subst rewriteLoop.simps) simp

lemma drawCount_rewriteLoop:
  "drawCount (rewriteLoop i n str) = 2 ^ nat (n - i) * drawCount str"
proof (induction i n str rule: rewriteLoop.induct)
  case (1 i n str)
  show ?case
  proof (cases "i < n")
    case True
    then have "nat (n - i) = Suc (nat (n - (i + 1)))" by simp
    with True "1" show ?thesis
      by (simp add: rewriteLoop_step drawCount_rewritePass)
  next
    case False
    then show ?thesis by (simp add: rewriteLoop_done)
  qed
qed

lemma length_rewriteLoop:
  "length str + 1 = 2 * drawCount str \<Longrightarrow>
   length (rewriteLoop i n str) + 1 = 2 * drawCount (rewriteLoop i n str)"
proof (induction i n str rule: rewriteLoop.induct)
  case (1 i n str)
  show ?case
  proof (cases "i < n")
    case True
    have "length (rewritePass str) + 1 = 2 * drawCount (rewritePass str)"
      using "1.prems" by (simp add: length_rewritePass drawCount_rewritePass)
    with True "1.IH" show ?thesis
      by (simp add: rewriteLoop_step)
  next
    case False
    with "1.prems" show ?thesis by (simp add: rewriteLoop_done)
  qed
qed

lemma length_rewriteLoop_axiom:
  "length (rewriteLoop 0 n ''F'') + 1 = 2 ^ (nat n + 1)"
proof -
  have "length ''F'' + 1 = 2 * drawCount ''F''"
    by (simp add: drawCount_def isDraw_def)
  then have "length (rewriteLoop 0 n ''F'') + 1 = 2 * drawCount (rewriteLoop 0 n ''F'')"
    by (rule length_rewriteLoop)
  also have "\<dots> = 2 * (2 ^ nat n * drawCount ''F'')"
    by (simp add: drawCount_rewriteLoop)
  finally show ?thesis by (simp add: drawCount_def isDraw_def)
qed

lemma rewriteLoop_axiom_nonempty: "rewriteLoop 0 n ''F'' \<noteq> []"
proof
  assume "rewriteLoop 0 n ''F'' = []"
  then have "length (rewriteLoop 0 n ''F'') + 1 = 1" by simp
  then have "(2::nat) ^ (nat n + 1) = 1" by (simp only: length_rewriteLoop_axiom)
  then show False by simp
qed

lemma reachableCache_entries:
  "reachableCache cache \<Longrightarrow> cache k = Some s \<Longrightarrow> s = rewriteLoop 0 k ''F''"
proof (induction arbitrary: k s rule: reachableCache.induct)
  case initial
  then show ?case by simp
next
  case (call cache n)
  then show ?case
    by (auto simp: generateLSystem_def Let_def split: option.splits if_splits)
qed

lemma generateLSystem_fst:
  "reachableCache cache \<Longrightarrow> fst (generateLSystem cache n) = rewriteLoop 0 n ''F''"
  by (auto simp: generateLSystem_def Let_def dest: reachableCache_entries split: option.splits)

lemma rewriteLoop_two: "rewriteLoop 0 2 ''F'' = ''F+G+F-G''"
  by (simp add: rewriteLoop.simps rewritePass_def rewriteChar_def)

text \<open>
  C1 (as amended). For every iteration count \<open>n \<ge> 0\<close> and every cache the page can hold,
  the string that \<open>generateLSystem\<close> returns has length \<open>2 ^ (n + 1) - 1\<close>: every pass
  turns each of the \<open>d\<close> draw symbols into two and adds \<open>d\<close> turn symbols, which are
  then copied. So the lengths are 1, 3, 7, 15, ...
\<close>

theorem generateLSystem_length:
  assumes "reachableCache cache" and "0 \<le> n"
  shows "length (fst (generateLSystem cache n)) + 1 = 2 ^ (nat n + 1)"
  using assms(1) length_rewriteLoop_axiom [of n] by (simp add: generateLSystem_fst)

theorem generateLSystem_length_witness:
  "reachableCache Map.empty \<and> (0::int) \<le> 2 \<and> length (fst (generateLSystem Map.empty 2)) = 7"
  using generateLSystem_length [OF reachableCache.initial, of 2]
  by (simp add: reachableCache.initial)

text \<open>
  The claim as the specification states it, length \<open>3 ^ n\<close> and 9 symbols after two
  passes, fails at \<open>n = 2\<close>: the string is \<open>F+G+F-G\<close>.
\<close>

theorem generateLSystem_length_counterexample:
  "fst (generateLSystem Map.empty 2) = ''F+G+F-G''
   \<and> length (fst (generateLSystem Map.empty 2)) \<noteq> 3 ^ 2"
  by (simp add: generateLSystem_def Let_def rewriteLoop_two)

text \<open>
  C4 (as amended). For a negative iteration count the loop body never runs: the generator
  returns the axiom \<open>F\<close>, on every cache the page can hold. It has no error to raise.
\<close>

theorem generateLSystem_negative:
  assumes "reachableCache cache" and "n < 0"
  shows "fst (generateLSystem cache n) = ''F''"
  using assms by (simp add: generateLSystem_fst rewriteLoop_done)

theorem generateLSystem_negative_witness:
  "reachableCache Map.empty \<and> (- 5 :: int) < 0 \<and> fst (generateLSystem Map.empty (- 5)) = ''F''"
  using generateLSystem_negative [OF reachableCache.initial, of "- 5"]
  by (simp add: reachableCache.initial)

text \<open>
  The claim as stated asks for an invalid-argument error at a negative count. At
  \<open>n = - 1\<close> the call returns the string \<open>F\<close> and stores it in the cache.
\<close>

theorem generateLSystem_negative_counterexample:
  "generateLSystem Map.empty (- 1) = (''F'', [- 1 \<mapsto> ''F''])"
  by (simp add: generateLSystem_def Let_def rewriteLoop_done)

section \<open>Properties of the projectors\<close>

lemma step2D_shape:
  "\<exists>x' y' d' ps. step2D a (x, y, d, points) ch = (x', y', d', points @ ps)
      \<and> length ps = (if isDraw ch then 1 else 0)"
  by (simp add: isDraw_def Let_def)

lemma foldl_step2D_points:
  "\<exists>x' y' d' ps. foldl (step2D a) (x, y, d, points) str = (x', y', d', points @ ps)
      \<and> length ps = drawCount str"
proof (induction str arbitrary: x y d points)
  case Nil
  then show ?case by (simp add: drawCount_def)
next
  case (Cons ch str)
  obtain x1 y1 d1 ps1 where
    st: "step2D a (x, y, d, points) ch = (x1, y1, d1, points @ ps1)"
      and len1: "length ps1 = (if isDraw ch then 1 else 0)"
    using step2D_shape by blast
  obtain x' y' d' ps where
    rest: "foldl (step2D a) (x1, y1, d1, points @ ps1) str = (x', y', d', (points @ ps1) @ ps)"
      and len: "length ps = drawCount str"
    using Cons.IH by blast
  have "foldl (step2D a) (x, y, d, points) (ch # str) = (x', y', d', points @ (ps1 @ ps))"
    using st rest by (simp del: step2D.simps)
  moreover have "length (ps1 @ ps) = drawCount (ch # str)"
    using len1 len by (simp add: drawCount_def)
  ultimately show ?case by blast
qed

lemma get2DPoints_shape:
  "\<exists>ps. get2DPoints str angleDeg = (0, 0) # ps \<and> length ps = drawCount str"
proof -
  obtain x' y' d' ps where
    "foldl (step2D ((angleDeg * pi) / 180)) (0, 0, 0, [(0, 0)]) str = (x', y', d', [(0, 0)] @ ps)"
    and "length ps = drawCount str"
    using foldl_step2D_points by blast
  then show ?thesis by (simp add: get2DPoints_def)
qed

lemma step3D_shape:
  "case step3D p m e (ori, x, y, z, points) ch of
     (o', x', y', z', points') \<Rightarrow>
       \<exists>ps. points' = points @ ps \<and> length ps = (if isDraw ch then 1 else 0)"
proof -
  obtain a0 a1 a2 b0 b1 b2 c0 c1 c2 where "ori = ((a0, a1, a2), (b0, b1, b2), (c0, c1, c2))"
    by (metis prod_cases3)
  then show ?thesis
    by (simp add: isDraw_def Let_def split: prod.splits del: matMul.simps)
qed

lemma foldl_step3D_points:
  "case foldl (step3D p m e) (ori, x, y, z, points) str of
     (o', x', y', z', points') \<Rightarrow> \<exists>ps. points' = points @ ps \<and> length ps = drawCount str"
proof (induction str arbitrary: ori x y z points)
  case Nil
  then show ?case by (simp add: drawCount_def)
next
  case (Cons ch str)
  obtain ori1 x1 y1 z1 points1 where
    st: "step3D p m e (ori, x, y, z, points) ch = (ori1, x1, y1, z1, points1)"
    by (metis prod_cases5)
  obtain ps1 where ps1: "points1 = points @ ps1" "length ps1 = (if isDraw ch then 1 else 0)"
    using step3D_shape [where p = p and m = m and e = e and ori = ori and x = x and y = y and z = z and points = points and ch = ch] st by auto
  obtain o' x' y' z' points' where
    rest: "foldl (step3D p m e) (ori1, x1, y1, z1, points1) str = (o', x', y', z', points')"
    by (metis prod_cases5)
  obtain ps where ps: "points' = points1 @ ps" "length ps = drawCount str"
    using Cons.IH [where ori = ori1 and x = x1 and y = y1 and z = z1 and points = points1] rest by auto
  have "points' = points @ (ps1 @ ps)" "length (ps1 @ ps) = drawCount (ch # str)"
    using ps1 ps by (simp_all add: drawCount_def)
  then have "\<exists>qs. points' = points @ qs \<and> length qs = drawCount (ch # str)"
    by blast
  then show ?case
    using st rest by (simp del: step3D.simps)
qed

lemma get3DPoints_shape:
  "\<exists>ps. get3DPoints str angleDeg twistDeg extrude = (0, 0, 0) # ps \<and> length ps = drawCount str"
proof -
  define p where "p = matMul (getRotationZ ((angleDeg * pi) / 180)) (getRotationX ((twistDeg * pi) / 180))"
  define m where "m = matMul (getRotationZ (- ((angleDeg * pi) / 180))) (getRotationX ((twistDeg * pi) / 180))"
  obtain o' x' y' z' points' where
    run: "foldl (step3D p m extrude) (((1, 0, 0), (0, 1, 0), (0, 0, 1)), 0, 0, 0, [(0, 0, 0)]) str
       = (o', x', y', z', points')"
    by (metis prod_cases5)
  obtain ps where "points' = [(0, 0, 0)] @ ps" "length ps = drawCount str"
    using foldl_step3D_points [where p = p and m = m and e = extrude and ori = "((1, 0, 0), (0, 1, 0), (0, 0, 1))"
        and x = 0 and y = 0 and z = 0 and points = "[(0, 0, 0)]" and str = str] run
    by auto
  then show ?thesis
    using run by (simp add: get3DPoints_def Let_def p_def m_def del: matMul.simps)
qed

text \<open>
  C2. For every symbol string, so for every string of the generator, and all angles and
  extrusions, the 2D and the 3D projector return a list that starts with the origin and
  holds one point more than the string has draw symbols \<open>F\<close> or \<open>G\<close>.
\<close>

theorem projectors_origin_and_length:
  "take 1 (get2DPoints str angleDeg) = [(0, 0)]
   \<and> length (get2DPoints str angleDeg) = drawCount str + 1
   \<and> take 1 (get3DPoints str angleDeg twistDeg extrude) = [(0, 0, 0)]
   \<and> length (get3DPoints str angleDeg twistDeg extrude) = drawCount str + 1"
proof -
  obtain ps where "get2DPoints str angleDeg = (0, 0) # ps" and "length ps = drawCount str"
    using get2DPoints_shape by blast
  moreover obtain qs where "get3DPoints str angleDeg twistDeg extrude = (0, 0, 0) # qs"
    and "length qs = drawCount str"
    using get3DPoints_shape by blast
  ultimately show ?thesis by simp
qed

lemma plusRot_flat: "matMul (getRotationZ a) (getRotationX 0) = getRotationZ a"
  by (simp add: getRotationZ_def getRotationX_def Let_def)

lemma matMul_getRotationZ: "matMul (getRotationZ d) (getRotationZ a) = getRotationZ (d + a)"
  by (simp add: getRotationZ_def Let_def cos_add sin_add)

lemma foldl_flat:
  "foldl (step3D (getRotationZ a) (getRotationZ (- a)) 0) (getRotationZ d, x, y, 0, pts3) str
     = (ori', x3, y3, z3, pts3')
   \<Longrightarrow> foldl (step2D a) (x, y, d, map flatten pts3) str = (x2, y2, d2, pts2')
   \<Longrightarrow> map flatten pts3' = pts2'"
proof (induction str arbitrary: d x y pts3)
  case Nil
  then show ?case by simp
next
  case (Cons ch str)
  consider (draw) "ch = CHR ''F'' \<or> ch = CHR ''G''" | (plus) "ch = CHR ''+''" | (minus) "ch = CHR ''-''"
    | (other) "\<not> (ch = CHR ''F'' \<or> ch = CHR ''G'')" "ch \<noteq> CHR ''+''" "ch \<noteq> CHR ''-''"
    by blast
  then show ?case
  proof cases
    case draw
    have s3: "step3D (getRotationZ a) (getRotationZ (- a)) 0 (getRotationZ d, x, y, 0, pts3) ch
        = (getRotationZ d, x + cos d, y + sin d, 0, pts3 @ [(x + cos d, y + sin d, 0)])"
      using draw by (simp add: getRotationZ_def Let_def)
    have s2: "step2D a (x, y, d, map flatten pts3) ch
        = (x + cos d, y + sin d, d, map flatten (pts3 @ [(x + cos d, y + sin d, 0)]))"
      using draw by (simp add: Let_def)
    show ?thesis
      using Cons.prems Cons.IH [of d "x + cos d" "y + sin d" "pts3 @ [(x + cos d, y + sin d, 0)]"]
      by (simp only: foldl_Cons s3 s2)
  next
    case plus
    have s3: "step3D (getRotationZ a) (getRotationZ (- a)) 0 (getRotationZ d, x, y, 0, pts3) ch
        = (getRotationZ (d + a), x, y, 0, pts3)"
      using plus by (simp add: matMul_getRotationZ del: matMul.simps)
    have s2: "step2D a (x, y, d, map flatten pts3) ch = (x, y, d + a, map flatten pts3)"
      using plus by simp
    show ?thesis
      using Cons.prems Cons.IH [of "d + a" x y pts3]
      by (simp only: foldl_Cons s3 s2)
  next
    case minus
    have s3: "step3D (getRotationZ a) (getRotationZ (- a)) 0 (getRotationZ d, x, y, 0, pts3) ch
        = (getRotationZ (d - a), x, y, 0, pts3)"
      using minus matMul_getRotationZ [of d "- a"] by (simp del: matMul.simps)
    have s2: "step2D a (x, y, d, map flatten pts3) ch = (x, y, d - a, map flatten pts3)"
      using minus by simp
    show ?thesis
      using Cons.prems Cons.IH [of "d - a" x y pts3]
      by (simp only: foldl_Cons s3 s2)
  next
    case other
    have s3: "step3D (getRotationZ a) (getRotationZ (- a)) 0 (getRotationZ d, x, y, 0, pts3) ch
        = (getRotationZ d, x, y, 0, pts3)"
      using other by simp
    have s2: "step2D a (x, y, d, map flatten pts3) ch = (x, y, d, map flatten pts3)"
      using other by simp
    show ?thesis
      using Cons.prems Cons.IH [of d x y pts3]
      by (simp only: foldl_Cons s3 s2)
  qed
qed

text \<open>
  In exact arithmetic the 3D points for twist 0 and extrusion 0, with the third
  coordinate dropped, are the 2D points, for every string and turn angle: the orientation
  is the rotation by the summed heading. This is a fact about the two algorithms, not
  about the script's outputs bit for bit. In doubles the two differ by rounding: for
  \<open>F+G+F-G\<close> at 37 degrees the fourth point comes out as
  \<open>1.5630767190903672\<close> in 2D and \<open>1.563076719090367\<close> in 3D in its second
  coordinate. Which doubles come out depends on the rounding of every operation and on
  the engine's \<open>Math.cos\<close> and \<open>Math.sin\<close>, none of which is modelled here.
\<close>

lemma flatten_get3DPoints_exact:
  "map flatten (get3DPoints str angleDeg 0 0) = get2DPoints str angleDeg"
proof -
  define a where "a = (angleDeg * pi) / 180"
  obtain ori' x3 y3 z3 pts3' where
    f3: "foldl (step3D (getRotationZ a) (getRotationZ (- a)) 0)
           (getRotationZ 0, 0, 0, 0, [(0, 0, 0)]) str = (ori', x3, y3, z3, pts3')"
    by (metis prod_cases5)
  obtain x2 y2 d2 pts2' where
    f2: "foldl (step2D a) (0, 0, 0, map flatten [(0, 0, 0)]) str = (x2, y2, d2, pts2')"
    by (metis prod_cases4)
  have "map flatten pts3' = pts2'"
    using f3 f2 by (rule foldl_flat)
  moreover have "get2DPoints str angleDeg = pts2'"
    using f2 by (simp add: get2DPoints_def a_def)
  moreover have "getRotationZ 0 = ((1, 0, 0), (0, 1, 0), (0, 0, 1))"
    by (simp add: getRotationZ_def)
  then have "get3DPoints str angleDeg 0 0 = pts3'"
    using f3 by (simp add: get3DPoints_def Let_def plusRot_flat a_def del: matMul.simps)
  ultimately show ?thesis by simp
qed

section \<open>Properties of the colour utilities\<close>

lemma hexChar_cases:
  "d < 16 \<Longrightarrow> d \<in> {0, 1, 2, 3, 4, 5, 6, 7, 8, 9, 10, 11, 12, 13, 14, 15 :: nat}"
  by (simp only: insert_iff empty_iff) presburger

lemma hexVal_hexChar: "d < 16 \<Longrightarrow> hexVal (hexChar d) = Some (int d)"
  by (drule hexChar_cases) (auto simp: hexVal_def hexChar_def)

lemma hexChar_plain:
  "d < 16 \<Longrightarrow> \<not> isWhiteSpace (hexChar d) \<and> hexChar d \<noteq> CHR ''#'' \<and> hexChar d \<noteq> CHR ''-''
     \<and> hexChar d \<noteq> CHR ''+'' \<and> hexChar d \<noteq> CHR ''x'' \<and> hexChar d \<noteq> CHR ''X''"
  by (drule hexChar_cases) (auto simp: isWhiteSpace_def hexChar_def)

lemma toHex_byte:
  assumes "0 \<le> c" "c \<le> 255"
  shows "toHex c = [hexChar (nat c div 16), hexChar (nat c mod 16)]"
proof (cases "nat c < 16")
  case True
  with assms show ?thesis
    by (simp add: toHex_def toString16_def hexDigits.simps [of "nat c"] hexChar_def)
next
  case False
  moreover from assms have "nat c div 16 < 16" by linarith
  ultimately show ?thesis
    using assms by (simp add: toHex_def toString16_def hexDigits.simps [of "nat c"] hexDigits.simps [of "nat c div 16"])
qed

lemma and_255: "(k::int) AND 255 = k mod 256"
proof -
  have "(255::int) = mask 8" by (simp add: mask_eq_exp_minus_1)
  then show ?thesis by (simp only: flip: take_bit_eq_mask) (simp add: take_bit_eq_mod)
qed

lemma byte_split:
  fixes a b :: int
  assumes "0 \<le> b" "b < 256"
  shows "(a * 256 + b) div 256 = a" "(a * 256 + b) mod 256 = b"
  using assms by simp_all

lemma parse6:
  assumes "d1 < 16" "d2 < 16" "d3 < 16" "d4 < 16" "d5 < 16" "d6 < 16"
  shows "parseInt16 [hexChar d1, hexChar d2, hexChar d3, hexChar d4, hexChar d5, hexChar d6]
    = Some (((((int d1 * 16 + int d2) * 16 + int d3) * 16 + int d4) * 16 + int d5) * 16 + int d6)"
  using assms by (simp add: parseInt16_def Let_def hexChar_plain hexVal_hexChar)

text \<open>
  C9. For channels \<open>r\<close>, \<open>g\<close>, \<open>b\<close> that are integers from 0 to 255,
  \<open>hexToRgb(rgbToHex(r, g, b))\<close> gives \<open>[r, g, b]\<close> back.
\<close>

theorem hexToRgb_rgbToHex:
  assumes "0 \<le> r" "r \<le> 255" "0 \<le> g" "g \<le> 255" "0 \<le> b" "b \<le> 255"
  shows "hexToRgb (rgbToHex r g b) = (r, g, b)"
proof -
  define r1 r0 g1 g0 b1 b0 where "r1 = nat r div 16" and "r0 = nat r mod 16"
    and "g1 = nat g div 16" and "g0 = nat g mod 16" and "b1 = nat b div 16" and "b0 = nat b mod 16"
  have lt: "r1 < 16" "r0 < 16" "g1 < 16" "g0 < 16" "b1 < 16" "b0 < 16"
    using assms unfolding r1_def r0_def g1_def g0_def b1_def b0_def by linarith+
  have hex: "rgbToHex r g b = CHR ''#'' # [hexChar r1, hexChar r0, hexChar g1, hexChar g0, hexChar b1, hexChar b0]"
    using assms by (simp add: rgbToHex_def toHex_byte r1_def r0_def g1_def g0_def b1_def b0_def)
  define v where "v = r * 65536 + g * 256 + b"
  have rr: "r = int r1 * 16 + int r0" and gg: "g = int g1 * 16 + int g0" and bb: "b = int b1 * 16 + int b0"
    using assms unfolding r1_def r0_def g1_def g0_def b1_def b0_def by (simp_all add: zdiv_int zmod_int)
  have "parseInt16 (remove1 (CHR ''#'') (rgbToHex r g b)) = Some v"
    unfolding hex v_def using parse6 [OF lt] rr gg bb by simp
  moreover have "0 \<le> v" "v < 2 ^ 31" using assms by (simp_all add: v_def)
  then have "signed_take_bit 31 v = v"
    by (simp add: signed_take_bit_int_eq_self)
  moreover have "drop_bit 16 v mod 256 = r" "drop_bit 8 v mod 256 = g" "v mod 256 = b"
  proof -
    have v256: "v = (r * 256 + g) * 256 + b" by (simp add: v_def)
    have lt: "r < 256" "g < 256" "b < 256" using assms by simp_all
    have low: "v div 256 = r * 256 + g" "v mod 256 = b"
      unfolding v256 using byte_split [OF \<open>0 \<le> b\<close> lt(3)] by blast+
    have mid: "(r * 256 + g) div 256 = r" "(r * 256 + g) mod 256 = g"
      using byte_split [OF \<open>0 \<le> g\<close> lt(2)] by blast+
    have "v div 65536 = v div 256 div 256"
      by (simp add: zdiv_zmult2_eq [symmetric])
    then have high: "v div 65536 = r"
      by (simp add: low mid)
    have d16: "drop_bit 16 v = v div 65536" and d8: "drop_bit 8 v = v div 256"
      by (simp_all add: drop_bit_eq_div)
    have "r mod 256 = r" using assms lt by simp
    then show "drop_bit 16 v mod 256 = r" by (simp only: d16 high)
    show "drop_bit 8 v mod 256 = g" by (simp only: d8 low mid)
    show "v mod 256 = b" by (rule low)
  qed
  ultimately show ?thesis
    by (simp add: hexToRgb_def Let_def toInt32_def and_255)
qed

theorem hexToRgb_rgbToHex_witness:
  "(0::int) \<le> 51 \<and> (51::int) \<le> 255 \<and> (0::int) \<le> 102 \<and> (102::int) \<le> 255
   \<and> (0::int) \<le> 204 \<and> (204::int) \<le> 255
   \<and> hexToRgb (rgbToHex 51 102 204) = (51, 102, 204)"
  using hexToRgb_rgbToHex [of 51 102 204] by simp

section \<open>Properties of the camera and the renderer\<close>

lemma valid_project3D:
  "valid (project3D s pt) = (cameraDist (view s) - depthZ (project3D s pt) > 0.001)"
  by (simp add: project3D_def Let_def split: prod.splits)

lemma segment3D_invalid:
  "\<not> valid (project3D s (currentPoints3D s ! i)) \<or> \<not> valid (project3D s (currentPoints3D s ! (i + 1)))
   \<Longrightarrow> segment3D s totalSegments i = []"
  by (auto simp: segment3D_def Let_def)

lemma concat_map_filter_nonempty:
  "(\<And>x. \<not> P x \<Longrightarrow> f x = []) \<Longrightarrow> concat (map f xs) = concat (map f (filter P xs))"
  by (induction xs) simp_all

lemma draw3D_valid_only:
  "draw3D s =
     concat (map (segment3D s (int (length (currentPoints3D s)) - 1))
       (filter (\<lambda>i. valid (project3D s (currentPoints3D s ! i))
                  \<and> valid (project3D s (currentPoints3D s ! (i + 1))))
          [0 ..< nat (maxSegment s (int (length (currentPoints3D s)) - 1))]))"
proof (cases "length (currentPoints3D s) < 2")
  case True
  then have "nat (maxSegment s (int (length (currentPoints3D s)) - 1)) = 0"
    by (simp add: maxSegment_def)
  with True show ?thesis by (simp add: draw3D_def)
next
  case False
  then show ?thesis
    unfolding draw3D_def Let_def
    by (simp only: if_False) (rule concat_map_filter_nonempty, rule segment3D_invalid, blast)
qed

text \<open>
  C5. A projected point is valid exactly when the denominator, camera distance minus
  rotated depth, exceeds 0.001. So a point whose rotated depth is at least the camera
  distance is invalid. The 3D loop strokes nothing for a segment with an invalid end, and
  what \<open>draw\<close> leaves on the canvas in 3D mode comes from the segments with two valid
  ends only.
\<close>

theorem invalid_points_not_drawn:
  "(valid (project3D s pt) \<longleftrightarrow> cameraDist (view s) - depthZ (project3D s pt) > 0.001)
   \<and> (cameraDist (view s) \<le> depthZ (project3D s pt) \<longrightarrow> \<not> valid (project3D s pt))
   \<and> (\<not> valid (project3D s (currentPoints3D s ! i))
        \<or> \<not> valid (project3D s (currentPoints3D s ! (i + 1)))
        \<longrightarrow> segment3D s totalSegments i = [])
   \<and> (enable3dInput (page s) \<longrightarrow>
        canvasStrokes (page (draw s)) =
          concat (map (segment3D s (int (length (currentPoints3D s)) - 1))
            (filter (\<lambda>i. valid (project3D s (currentPoints3D s ! i))
                       \<and> valid (project3D s (currentPoints3D s ! (i + 1))))
               [0 ..< nat (maxSegment s (int (length (currentPoints3D s)) - 1))])))"
proof -
  have "cameraDist (view s) \<le> depthZ (project3D s pt) \<longrightarrow> \<not> valid (project3D s pt)"
    by (simp add: valid_project3D)
  moreover have "enable3dInput (page s) \<longrightarrow> canvasStrokes (page (draw s)) = draw3D s"
    by (simp add: draw_def)
  ultimately show ?thesis
    using valid_project3D [of s pt] segment3D_invalid [of s i totalSegments] draw3D_valid_only [of s]
    by (simp only:) blast
qed


lemma depth_sample:
  "depthZ (project3D ((initialState samplePage)\<lparr>currentPoints3D := [(0, 0, 0), (0, 0, 2)]\<rparr>) (0, 0, 2)) = 2"
  by (simp add: project3D_def getViewRotation_def initialState_def Let_def)

lemma valid_sample:
  "valid (project3D ((initialState samplePage)\<lparr>currentPoints3D := [(0, 0, 0), (0, 0, 2)]\<rparr>) (0, 0, 0))"
  by (simp add: project3D_def getViewRotation_def initialState_def Let_def)

theorem invalid_points_not_drawn_witness:
  "cameraDist (view ((initialState samplePage)\<lparr>currentPoints3D := [(0, 0, 0), (0, 0, 2)]\<rparr>))
     \<le> depthZ (project3D ((initialState samplePage)\<lparr>currentPoints3D := [(0, 0, 0), (0, 0, 2)]\<rparr>) (0, 0, 2))
   \<and> \<not> valid (project3D ((initialState samplePage)\<lparr>currentPoints3D := [(0, 0, 0), (0, 0, 2)]\<rparr>) (0, 0, 2))
   \<and> valid (project3D ((initialState samplePage)\<lparr>currentPoints3D := [(0, 0, 0), (0, 0, 2)]\<rparr>) (0, 0, 0))
   \<and> segment3D ((initialState samplePage)\<lparr>currentPoints3D := [(0, 0, 0), (0, 0, 2)]\<rparr>) 1 0 = []
   \<and> enable3dInput (page ((initialState samplePage)\<lparr>currentPoints3D := [(0, 0, 0), (0, 0, 2)]\<rparr>))
   \<and> canvasStrokes (page (draw ((initialState samplePage)\<lparr>currentPoints3D := [(0, 0, 0), (0, 0, 2)]\<rparr>))) = []"
proof -
  let ?s = "(initialState samplePage)\<lparr>currentPoints3D := [(0, 0, 0), (0, 0, 2)]\<rparr>"
  have c: "cameraDist (view ?s) = 1" and e: "enable3dInput (page ?s)"
    and p: "currentPoints3D ?s = [(0, 0, 0), (0, 0, 2)]" and a: "animationProgress ?s = - 1"
    by (simp_all add: initialState_def samplePage_def)
  have far: "cameraDist (view ?s) \<le> depthZ (project3D ?s (0, 0, 2))"
    by (simp only: c depth_sample)
  from invalid_points_not_drawn [of ?s "(0, 0, 2)" 0 1] far
  have inv: "\<not> valid (project3D ?s (0, 0, 2))" by blast
  then have inv1: "\<not> valid (project3D ?s (currentPoints3D ?s ! (0 + 1)))"
    by (simp only: p) simp
  from invalid_points_not_drawn [of ?s "(0, 0, 2)" 0 1] inv1
  have seg: "segment3D ?s 1 0 = []" by blast
  from invalid_points_not_drawn [of ?s "(0, 0, 2)" 0 1] e
  have "canvasStrokes (page (draw ?s)) =
          concat (map (segment3D ?s (int (length (currentPoints3D ?s)) - 1))
            (filter (\<lambda>i. valid (project3D ?s (currentPoints3D ?s ! i))
                       \<and> valid (project3D ?s (currentPoints3D ?s ! (i + 1))))
               [0 ..< nat (maxSegment ?s (int (length (currentPoints3D ?s)) - 1))]))"
    by blast
  moreover have "nat (maxSegment ?s (int (length (currentPoints3D ?s)) - 1)) = 1"
    by (simp add: maxSegment_def p a)
  ultimately have "canvasStrokes (page (draw ?s)) = []"
    using inv1 by (simp del: One_nat_def)
  with far inv valid_sample seg e show ?thesis by blast
qed

lemma strokeColor_rainbow:
  "useRainbow s \<Longrightarrow> 0 < totalSegments \<Longrightarrow>
   strokeColor s totalSegments i = hslToRgb (360 * (real i / real_of_int totalSegments)) 1 0.5"
  by (simp add: strokeColor_def segmentColor_def Let_def split: prod.splits)

lemma strokeStyle_segment2D:
  "strokeStyle (segment2D s offsetX offsetY adjMinX adjMinY scale totalSegments i)
     = strokeColor s totalSegments i"
  by (simp add: segment2D_def Let_def split: prod.splits)

lemma map_strokeStyle_draw2D:
  "map strokeStyle (draw2D s) =
     map (strokeColor s (int (length (currentPoints2D s)) - 1))
       [0 ..< nat (maxSegment s (int (length (currentPoints2D s)) - 1))]"
proof (cases "currentPoints2D s")
  case Nil
  then show ?thesis by (simp add: draw2D_def maxSegment_def)
next
  case (Cons p rest)
  show ?thesis
  proof (cases rest)
    case Nil
    with Cons show ?thesis by (simp add: draw2D_def maxSegment_def)
  next
    case (Cons q rest')
    with \<open>currentPoints2D s = p # rest\<close> show ?thesis
      by (simp add: draw2D_def Let_def strokeStyle_segment2D comp_def split: prod.splits)
  qed
qed

lemma map_strokeStyle_segment3D:
  "map strokeStyle (segment3D s totalSegments i) =
     (if valid (project3D s (currentPoints3D s ! i)) \<and> valid (project3D s (currentPoints3D s ! (i + 1)))
      then [strokeColor s totalSegments i] else [])"
  by (simp add: segment3D_def Let_def)

lemma concat_map_if:
  "concat (map (\<lambda>i. if P i then [f i] else []) xs) = map f (filter P xs)"
  by (induction xs) simp_all

lemma map_strokeStyle_draw3D:
  "map strokeStyle (draw3D s) =
     map (strokeColor s (int (length (currentPoints3D s)) - 1))
       (filter (\<lambda>i. valid (project3D s (currentPoints3D s ! i))
                  \<and> valid (project3D s (currentPoints3D s ! (i + 1))))
          [0 ..< nat (maxSegment s (int (length (currentPoints3D s)) - 1))])"
proof (cases "length (currentPoints3D s) < 2")
  case True
  then have "nat (maxSegment s (int (length (currentPoints3D s)) - 1)) = 0"
    by (simp add: maxSegment_def)
  with True show ?thesis by (simp add: draw3D_def)
next
  case False
  then show ?thesis
    by (simp add: draw3D_def Let_def map_concat comp_def map_strokeStyle_segment3D concat_map_if)
qed

lemma map_cong_upt:
  "(\<And>i. i < n \<Longrightarrow> f i = g i) \<Longrightarrow> map f (filter P [0 ..< n]) = map g (filter P [0 ..< n])"
  by (rule map_cong) auto

text \<open>
  C6. With both the rainbow and the gradient switch on, every segment takes the rainbow
  colour: hue \<open>360 * (i / totalSegments)\<close>, saturation 1, lightness one half. This
  holds for the colour chain as soon as there is a segment, for every stroke of the 2D
  branch, and for every stroke of the 3D branch (those of the segments with two valid
  ends). The start and end colours do not enter.
\<close>

theorem rainbow_overrides_gradient:
  assumes "useRainbow s" and "useGradient s"
  shows "(0 < totalSegments \<longrightarrow>
            strokeColor s totalSegments i = hslToRgb (360 * (real i / real_of_int totalSegments)) 1 0.5)
    \<and> map strokeStyle (draw2D s) =
        map (\<lambda>i. hslToRgb (360 * (real i / real_of_int (int (length (currentPoints2D s)) - 1))) 1 0.5)
          [0 ..< nat (maxSegment s (int (length (currentPoints2D s)) - 1))]
    \<and> map strokeStyle (draw3D s) =
        map (\<lambda>i. hslToRgb (360 * (real i / real_of_int (int (length (currentPoints3D s)) - 1))) 1 0.5)
          (filter (\<lambda>i. valid (project3D s (currentPoints3D s ! i))
                     \<and> valid (project3D s (currentPoints3D s ! (i + 1))))
             [0 ..< nat (maxSegment s (int (length (currentPoints3D s)) - 1))])"
proof (intro conjI)
  show "0 < totalSegments \<longrightarrow>
          strokeColor s totalSegments i = hslToRgb (360 * (real i / real_of_int totalSegments)) 1 0.5"
    using assms(1) by (simp add: strokeColor_rainbow)
next
  let ?N = "int (length (currentPoints2D s)) - 1"
  have "map (strokeColor s ?N) (filter (\<lambda>i. True) [0 ..< nat (maxSegment s ?N)])
      = map (\<lambda>i. hslToRgb (360 * (real i / real_of_int ?N)) 1 0.5) (filter (\<lambda>i. True) [0 ..< nat (maxSegment s ?N)])"
  proof (rule map_cong_upt)
    fix i assume "i < nat (maxSegment s ?N)"
    then have "0 < ?N" by (simp add: maxSegment_def split: if_splits)
    then show "strokeColor s ?N i = hslToRgb (360 * (real i / real_of_int ?N)) 1 0.5"
      using assms(1) by (rule strokeColor_rainbow [rotated])
  qed
  then show "map strokeStyle (draw2D s) =
        map (\<lambda>i. hslToRgb (360 * (real i / real_of_int ?N)) 1 0.5) [0 ..< nat (maxSegment s ?N)]"
    by (simp add: map_strokeStyle_draw2D)
next
  let ?N = "int (length (currentPoints3D s)) - 1"
  let ?P = "\<lambda>i. valid (project3D s (currentPoints3D s ! i))
                     \<and> valid (project3D s (currentPoints3D s ! (i + 1)))"
  have "map (strokeColor s ?N) (filter ?P [0 ..< nat (maxSegment s ?N)])
      = map (\<lambda>i. hslToRgb (360 * (real i / real_of_int ?N)) 1 0.5) (filter ?P [0 ..< nat (maxSegment s ?N)])"
  proof (rule map_cong_upt)
    fix i assume "i < nat (maxSegment s ?N)"
    then have "0 < ?N" by (simp add: maxSegment_def split: if_splits)
    then show "strokeColor s ?N i = hslToRgb (360 * (real i / real_of_int ?N)) 1 0.5"
      using assms(1) by (rule strokeColor_rainbow [rotated])
  qed
  then show "map strokeStyle (draw3D s) =
        map (\<lambda>i. hslToRgb (360 * (real i / real_of_int ?N)) 1 0.5) (filter ?P [0 ..< nat (maxSegment s ?N)])"
    by (simp only: map_strokeStyle_draw3D)
qed


lemma hslToRgb_red: "hslToRgb 0 1 0.5 = (255, 0, 0)"
  by (simp add: hslToRgb_def jsRemainder_def hue2rgb_def Math_round_def Let_def)

lemma draw2D_sample:
  "nat (maxSegment ((initialState samplePage)\<lparr>useRainbow := True, useGradient := True,
      currentPoints2D := [(0, 0), (1, 0)]\<rparr>) 1) = 1"
  by (simp add: maxSegment_def initialState_def)

theorem rainbow_overrides_gradient_witness:
  "useRainbow ((initialState samplePage)\<lparr>useRainbow := True, useGradient := True,
      currentPoints2D := [(0, 0), (1, 0)]\<rparr>)
   \<and> useGradient ((initialState samplePage)\<lparr>useRainbow := True, useGradient := True,
      currentPoints2D := [(0, 0), (1, 0)]\<rparr>)
   \<and> map strokeStyle (draw2D ((initialState samplePage)\<lparr>useRainbow := True, useGradient := True,
      currentPoints2D := [(0, 0), (1, 0)]\<rparr>)) = [(255, 0, 0)]"
proof -
  let ?s = "(initialState samplePage)\<lparr>useRainbow := True, useGradient := True,
      currentPoints2D := [(0, 0), (1, 0)]\<rparr>"
  have r: "useRainbow ?s" and g: "useGradient ?s" by simp_all
  have len: "int (length (currentPoints2D ?s)) - 1 = 1" by simp
  from rainbow_overrides_gradient [OF r g, of 1 0]
  have "map strokeStyle (draw2D ?s) =
        map (\<lambda>i. hslToRgb (360 * (real i / real_of_int (int (length (currentPoints2D ?s)) - 1))) 1 0.5)
          [0 ..< nat (maxSegment ?s (int (length (currentPoints2D ?s)) - 1))]"
    by blast
  then have "map strokeStyle (draw2D ?s) = [hslToRgb 0 1 0.5]"
    by (simp only: len draw2D_sample) simp
  with r g show ?thesis by (simp only: hslToRgb_red) 
qed

lemma Math_round_of_int: "Math_round (real_of_int k) = k"
  by (simp add: Math_round_def)

lemma Math_round_mono: "v \<le> w \<Longrightarrow> Math_round v \<le> Math_round w"
  by (simp add: Math_round_def floor_mono)

lemma interpolate_between:
  fixes a b :: int and t :: real
  assumes "0 \<le> t" "t \<le> 1"
  shows "min a b \<le> Math_round (real_of_int a + real_of_int (b - a) * t)"
    and "Math_round (real_of_int a + real_of_int (b - a) * t) \<le> max a b"
proof -
  let ?v = "real_of_int a + real_of_int (b - a) * t"
  have eq: "?v = (1 - t) * real_of_int a + t * real_of_int b"
    by (simp add: algebra_simps)
  have lo: "real_of_int (min a b) \<le> ?v"
  proof -
    have "(1 - t) * real_of_int (min a b) \<le> (1 - t) * real_of_int a"
      using assms by (intro mult_left_mono) simp_all
    moreover have "t * real_of_int (min a b) \<le> t * real_of_int b"
      using assms by (intro mult_left_mono) simp_all
    ultimately have "(1 - t) * real_of_int (min a b) + t * real_of_int (min a b) \<le> ?v"
      unfolding eq by linarith
    then show ?thesis by (simp add: algebra_simps)
  qed
  have hi: "?v \<le> real_of_int (max a b)"
  proof -
    have "(1 - t) * real_of_int a \<le> (1 - t) * real_of_int (max a b)"
      using assms by (intro mult_left_mono) simp_all
    moreover have "t * real_of_int b \<le> t * real_of_int (max a b)"
      using assms by (intro mult_left_mono) simp_all
    ultimately have "?v \<le> (1 - t) * real_of_int (max a b) + t * real_of_int (max a b)"
      unfolding eq by linarith
    then show ?thesis by (simp add: algebra_simps)
  qed
  from Math_round_mono [OF lo] show "min a b \<le> Math_round ?v"
    by (simp only: Math_round_of_int)
  from Math_round_mono [OF hi] show "Math_round ?v \<le> max a b"
    by (simp only: Math_round_of_int)
qed

lemma hexToRgb_black: "hexToRgb ''#000000'' = (0, 0, 0)"
  by (simp add: hexToRgb_def parseInt16_def isWhiteSpace_def hexVal_def toInt32_def Let_def)

lemma hexToRgb_white: "hexToRgb ''#ffffff'' = (255, 255, 255)"
  by (simp add: hexToRgb_def parseInt16_def isWhiteSpace_def hexVal_def toInt32_def Let_def)

text \<open>
  C7 (as amended). With the gradient policy (gradient on, rainbow off) and more than one
  segment, segment 0 takes exactly the start colour, and in the colour of the last
  segment, index \<open>N - 1\<close>, every channel lies between the start and the end value of
  that channel, both included. The channel is rounded to an integer, so it may reach the
  end value.
\<close>

theorem gradient_first_and_last:
  assumes "1 < N"
  shows "segmentColor False True (startR, startG, startB) (endR, endG, endB) N 0
           = (startR, startG, startB)
    \<and> (case segmentColor False True (startR, startG, startB) (endR, endG, endB) N (nat (N - 1)) of
         (r, g, b) \<Rightarrow>
           min startR endR \<le> r \<and> r \<le> max startR endR
           \<and> min startG endG \<le> g \<and> g \<le> max startG endG
           \<and> min startB endB \<le> b \<and> b \<le> max startB endB)"
proof -
  define t where "t = real (nat (N - 1)) / real_of_int N"
  have t: "0 \<le> t" "t \<le> 1"
    using assms by (simp_all add: t_def)
  have first: "segmentColor False True (startR, startG, startB) (endR, endG, endB) N 0
           = (startR, startG, startB)"
    using assms by (simp add: segmentColor_def Math_round_of_int)
  have last: "segmentColor False True (startR, startG, startB) (endR, endG, endB) N (nat (N - 1))
     = (Math_round (real_of_int startR + real_of_int (endR - startR) * t),
        Math_round (real_of_int startG + real_of_int (endG - startG) * t),
        Math_round (real_of_int startB + real_of_int (endB - startB) * t))"
    using assms by (simp add: segmentColor_def Let_def t_def)
  show ?thesis
    unfolding last using first interpolate_between [OF t] by simp
qed

theorem gradient_first_and_last_witness:
  "(1::int) < 4
   \<and> segmentColor False True (0, 0, 0) (255, 255, 255) 4 0 = (0, 0, 0)
   \<and> segmentColor False True (0, 0, 0) (255, 255, 255) 4 (nat (4 - 1)) = (191, 191, 191)"
proof -
  have "segmentColor False True (0, 0, 0) (255, 255, 255) 4 (nat (4 - 1)) = (191, 191, 191)"
    by (simp add: segmentColor_def Let_def Math_round_def)
  then show ?thesis
    using gradient_first_and_last [of 4 0 0 0 255 255 255] by simp
qed

text \<open>
  The claim as stated wants the last segment's colour different from the end colour.
  From black to white over 1024 segments, segment 1023 has \<open>255 * 1023 / 1024 = 254.75\<close>
  in every channel, which rounds to 255: the end colour.
\<close>

theorem gradient_last_counterexample:
  "segmentColor False True (hexToRgb ''#000000'') (hexToRgb ''#ffffff'') 1024 1023
     = hexToRgb ''#ffffff''"
  by (simp add: hexToRgb_black hexToRgb_white segmentColor_def Let_def Math_round_def)


section \<open>Properties of zoom and animation\<close>

lemma clamp_zoom:
  fixes zoom :: real
  shows "0.1 \<le> max 0.1 (min 10 zoom)" "max 0.1 (min 10 zoom) \<le> 10"
  by simp_all

lemma userZoom_canvasWheel:
  "userZoom (view (canvasWheel deltaY s)) =
     (if \<not> enable3dInput (page s) then userZoom (view s)
      else max 0.1 (min 10 (userZoom (view s) * exp (- deltaY * 0.001))))"
  by (simp add: canvasWheel_def draw_def Let_def)

text \<open>
  C10. In 3D mode a wheel event leaves the user zoom in the interval from 0.1 to 10,
  whatever it was and whatever the delta; and whatever the mode, a zoom inside the
  interval stays inside.
\<close>

theorem canvasWheel_zoom_clamped:
  "(enable3dInput (page s) \<longrightarrow>
      0.1 \<le> userZoom (view (canvasWheel deltaY s)) \<and> userZoom (view (canvasWheel deltaY s)) \<le> 10)
   \<and> (0.1 \<le> userZoom (view s) \<and> userZoom (view s) \<le> 10 \<longrightarrow>
      0.1 \<le> userZoom (view (canvasWheel deltaY s)) \<and> userZoom (view (canvasWheel deltaY s)) \<le> 10)"
  using clamp_zoom [of "userZoom (view s) * exp (- deltaY * 0.001)"]
  by (simp only: userZoom_canvasWheel split: if_splits) blast

theorem canvasWheel_zoom_clamped_witness:
  "enable3dInput (page (initialState samplePage))
   \<and> (0.1::real) \<le> userZoom (view (initialState samplePage))
   \<and> userZoom (view (initialState samplePage)) \<le> 10
   \<and> 0.1 \<le> userZoom (view (canvasWheel (- 100000) (initialState samplePage)))
   \<and> userZoom (view (canvasWheel (- 100000) (initialState samplePage))) \<le> 10"
  using canvasWheel_zoom_clamped [of "initialState samplePage" "- 100000"]
  by (simp add: initialState_def samplePage_def)

text \<open>
  C8. A click on the animate button while an animation runs changes nothing: flags,
  progress, timer, points, controls, pending timeouts and canvas are all as before.
\<close>

theorem animateBtnClick_while_running:
  "isAnimating s \<Longrightarrow> animateBtnClick s = s"
  by (simp add: animateBtnClick_def)

text \<open>
  The theorem is not empty: a click while idle, on any cache the page can hold, does
  start an animation, since the curve of the generator always has a segment to reveal.
\<close>


lemma compute3DBounds_keeps:
  "currentPoints2D (compute3DBounds pv s) = currentPoints2D s"
  "currentPoints3D (compute3DBounds pv s) = currentPoints3D s"
  "page (compute3DBounds pv s) = page s"
  by (simp_all add: compute3DBounds_def Let_def split: list.splits prod.splits)

lemma draw_keeps:
  "currentPoints2D (draw s) = currentPoints2D s"
  "currentPoints3D (draw s) = currentPoints3D s"
  "isAnimating (draw s) = isAnimating s"
  "animationProgress (draw s) = animationProgress s"
  by (simp_all add: draw_def)

lemma drawCount_axiom: "drawCount (rewriteLoop 0 n ''F'') = 2 ^ nat n"
  by (simp add: drawCount_rewriteLoop) (simp add: drawCount_def isDraw_def)

lemma animateSegment_continues:
  assumes "isAnimating s" and "animationProgress s = 0"
    and "2 \<le> length (currentPoints2D s)" and "2 \<le> length (currentPoints3D s)"
  shows "isAnimating (animateSegment use3D s)"
  using assms by (simp add: animateSegment_def Let_def draw_keeps)

lemma animateBtnClick_starts:
  assumes "\<not> isAnimating s" and "reachableCache (lSystemCache s)"
  shows "isAnimating (animateBtnClick s)"
proof -
  obtain str cache' where gen: "generateLSystem (lSystemCache s) (iterationInput (page s)) = (str, cache')"
    by (cases "generateLSystem (lSystemCache s) (iterationInput (page s))")
  have "str = rewriteLoop 0 (iterationInput (page s)) ''F''"
    using generateLSystem_fst [OF assms(2), of "iterationInput (page s)"] gen by simp
  then have "1 \<le> drawCount str"
    by (simp add: drawCount_axiom)
  then have len: "2 \<le> length (get2DPoints str a)" "2 \<le> length (get3DPoints str a tw ex)" for a tw ex
    using get2DPoints_shape [of str a] get3DPoints_shape [of str a tw ex] by auto
  show ?thesis
    using assms(1) gen
    by (auto simp: animateBtnClick_def Let_def compute3DBounds_keeps len
        intro!: animateSegment_continues)
qed

theorem animateBtnClick_while_running_witness:
  "isAnimating (animateBtnClick (initialState samplePage))
   \<and> animateBtnClick (animateBtnClick (initialState samplePage))
       = animateBtnClick (initialState samplePage)"
proof -
  have "\<not> isAnimating (initialState samplePage)"
    and "reachableCache (lSystemCache (initialState samplePage))"
    by (simp_all add: initialState_def reachableCache.initial)
  then have "isAnimating (animateBtnClick (initialState samplePage))"
    by (rule animateBtnClick_starts)
  then show ?thesis
    using animateBtnClick_while_running [of "animateBtnClick (initialState samplePage)"] by simp
qed

end
